theory Spec2Isabelle
  imports Complex_Main "HOL-Library.AList"
begin

section \<open>Data model (state.ts)\<close>

text \<open>
  The grid's numbers are JavaScript \<open>number\<close>s. They are modelled as reals: rounding,
  infinities and NaN are outside the model. In particular a division by a zero aspect
  ratio, \<open>Infinity\<close> or \<open>NaN\<close> in the source, is \<open>0\<close> here, and a comparison of
  two sums can differ from the source's by rounding; the examples use aspect ratios and
  sizes that doubles hold exactly. A field that the source leaves \<open>undefined\<close> or sets to
  \<open>null\<close> is an option, \<open>None\<close> standing for the missing value.
\<close>

record ItemData =
  item_id :: string
  aspectRatio :: real

record RowData =
  items :: "ItemData list"
  row_aspectRatio :: real
  extraMargins :: "real option"

record Options =
  margin :: real
  rowAspectRatioThreshold :: real

text \<open>
  A method or a callback either returns or throws a \<open>TypeError\<close> (a property read on
  \<open>undefined\<close>, a call that is given \<open>undefined\<close> for an element); both leave an object
  behind, the second as it was at the throw.
\<close>

datatype 'a result = Ok 'a | TypeError 'a

definition after :: "'a result \<Rightarrow> 'a" where
  "after r = (case r of Ok x \<Rightarrow> x | TypeError x \<Rightarrow> x)"

section \<open>Section (section.ts)\<close>

text \<open>
  Every item of a section owns a placeholder element; \<open>set\<close> writes four of its style
  properties (\<open>`${v}px`\<close>). The element is modelled by these four values, \<open>None\<close>
  while a property has never been written.
\<close>

record ItemElement =
  style_height :: "real option"
  style_width :: "real option"
  style_left :: "real option"
  style_top :: "real option"

definition createElement :: ItemElement where
  "createElement =
     \<lparr>style_height = None, style_width = None, style_left = None, style_top = None\<rparr>"

type_synonym SectionRow = "(real \<times> real option) \<times> (ItemElement \<times> ItemData) list"

record SectionElement =
  attached :: bool
  sec_top :: "real option"
  sec_width :: "real option"
  sec_height :: "real option"
  index :: int
  rows :: "SectionRow list"
  section_style_top :: "real option"
  section_style_height :: "real option"

text \<open>The constructor: one placeholder element per item, nothing laid out yet.\<close>

definition new_SectionElement :: "int \<Rightarrow> RowData list \<Rightarrow> SectionElement" where
  "new_SectionElement i rs =
     \<lparr>attached = False, sec_top = None, sec_width = None, sec_height = None, index = i,
      rows = map (\<lambda>r. ((row_aspectRatio r, extraMargins r),
                          map (\<lambda>d. (createElement, d)) (items r))) rs,
      section_style_top = None, section_style_height = None\<rparr>"

definition getItems :: "SectionElement \<Rightarrow> ItemData list" where
  "getItems s = concat (map (\<lambda>(m, row). map snd row) (rows s))"

definition getTop :: "SectionElement \<Rightarrow> real option" where
  "getTop s = sec_top s"

definition getHeight :: "SectionElement \<Rightarrow> real option" where
  "getHeight s = sec_height s"

definition isShown :: "SectionElement \<Rightarrow> bool" where
  "isShown s = attached s"

text \<open>\<open>extraMargins ? extraMargins : 0\<close>\<close>

definition extraMargins_or_0 :: "real option \<Rightarrow> real" where
  "extraMargins_or_0 e = (case e of None \<Rightarrow> 0 | Some x \<Rightarrow> x)"

text \<open>
  The row height of \<open>set\<close>, \<open>show\<close> and \<open>resizeItems\<close>. \<open>MG\<close> is the constant
  \<open>MARGIN\<close> of \<open>./constants\<close>, a file that is not among the sources: it is a parameter
  of every definition that uses it. The quotient is the one of the reals, exact and \<open>0\<close>
  for a row aspect ratio of \<open>0\<close>, where the source's doubles round and give
  \<open>Infinity\<close> or \<open>NaN\<close>.
\<close>

definition row_height :: "real \<Rightarrow> real \<Rightarrow> real \<times> real option \<Rightarrow> nat \<Rightarrow> real" where
  "row_height MG w m n =
     (w - (real n - 1 + extraMargins_or_0 (snd m)) * MG) / fst m"

text \<open>The inner \<open>items.forEach\<close> of \<open>set\<close>: \<open>left\<close> is the running offset.\<close>

fun set_items ::
  "real \<Rightarrow> real \<Rightarrow> real \<Rightarrow> real \<Rightarrow> (ItemElement \<times> ItemData) list
     \<Rightarrow> (ItemElement \<times> ItemData) list" where
  "set_items MG h localTop left [] = []"
| "set_items MG h localTop left ((el, d) # rest) =
     (el\<lparr>style_height := Some h, style_width := Some (h * aspectRatio d),
         style_left := Some left, style_top := Some localTop\<rparr>, d)
     # set_items MG h localTop (left + (h * aspectRatio d + MG)) rest"

text \<open>The outer \<open>rows.forEach\<close> of \<open>set\<close>: returns the rows and the final \<open>localTop\<close>.\<close>

fun set_rows :: "real \<Rightarrow> real \<Rightarrow> real \<Rightarrow> SectionRow list \<Rightarrow> SectionRow list \<times> real" where
  "set_rows MG w localTop [] = ([], localTop)"
| "set_rows MG w localTop ((m, its) # rest) =
     (let h = row_height MG w m (length its);
          r = set_rows MG w (localTop + (h + MG)) rest
      in ((m, set_items MG h localTop 0 its) # fst r, snd r))"

text \<open>
  \<open>set(top, width)\<close>. The method has two parameters; its callers in the controller pass
  the \<open>margin\<close> option as a third argument, which JavaScript drops.
\<close>

definition set_top :: "SectionElement \<Rightarrow> real \<Rightarrow> SectionElement" where
  "set_top s t =
     (if sec_top s \<noteq> Some t then s\<lparr>section_style_top := Some t, sec_top := Some t\<rparr> else s)"

definition set_width :: "real \<Rightarrow> SectionElement \<Rightarrow> real \<Rightarrow> SectionElement" where
  "set_width MG s w =
     (if sec_width s \<noteq> Some w
      then let r = set_rows MG w 0 (rows s)
           in s\<lparr>rows := fst r, section_style_height := Some (snd r),
                sec_width := Some w, sec_height := Some (snd r)\<rparr>
      else s)"

definition SectionElement_set :: "real \<Rightarrow> SectionElement \<Rightarrow> real \<Rightarrow> real \<Rightarrow> SectionElement" where
  "SectionElement_set MG s t w = set_width MG (set_top s t) w"

text \<open>The call as the controller writes it: \<open>section.set(top, width, options.margin)\<close>.\<close>

definition set_call ::
  "real \<Rightarrow> SectionElement \<Rightarrow> real \<Rightarrow> real \<Rightarrow> real \<Rightarrow> SectionElement" where
  "set_call MG s t w margin_option = SectionElement_set MG s t w"

text \<open>
  \<open>hide()\<close> detaches the section's element. \<open>show(element)\<close> appends it to the element
  it is given and then sets the flag; given \<open>undefined\<close> (\<open>None\<close>) the append throws
  before the flag is set. The render delegate that \<open>show\<close> calls afterwards is external.
\<close>

definition hide :: "SectionElement \<Rightarrow> SectionElement" where
  "hide s = (if attached s then s\<lparr>attached := False\<rparr> else s)"

definition show_section :: "SectionElement \<Rightarrow> unit option \<Rightarrow> SectionElement result" where
  "show_section s element =
     (if \<not> attached s
      then (case element of None \<Rightarrow> TypeError s | Some e \<Rightarrow> Ok (s\<lparr>attached := True\<rparr>))
      else Ok s)"

text \<open>
  The class has no property \<open>target\<close>, which the interface \<open>Section\<close> declares and the
  controller reads: the read gives \<open>undefined\<close>.
\<close>

definition target :: "SectionElement \<Rightarrow> unit option" where
  "target s = None"

section \<open>Tiling (tile.ts)\<close>

text \<open>
  Modelled from the spec: the default export \<open>tile\<close> of \<open>./tile\<close>, which the controller
  imports and which is not among the sources. The spec (4.1): accumulate items into the
  current row, summing aspect ratios; close the row once the running sum reaches the
  threshold, then start a new row; if the input is exhausted while the current row is
  still below the threshold, withhold its items as remainder when \<open>hasMore\<close> is true and
  emit the partial row when it is false. The spec does not say how the achieved aspect
  ratio is "margin-adjusted" nor how \<open>extraMargins\<close> is computed: the model records the
  plain sum and leaves \<open>extraMargins\<close> absent. An empty current row is not emitted.
\<close>

definition make_row :: "ItemData list \<Rightarrow> RowData" where
  "make_row its =
     \<lparr>items = its, row_aspectRatio = sum_list (map aspectRatio its), extraMargins = None\<rparr>"

fun tile_rows :: "real \<Rightarrow> ItemData list \<Rightarrow> ItemData list \<Rightarrow> RowData list \<times> ItemData list" where
  "tile_rows thr cur [] = ([], cur)"
| "tile_rows thr cur (x # xs) =
     (if thr \<le> sum_list (map aspectRatio (cur @ [x]))
      then (let r = tile_rows thr [] xs in (make_row (cur @ [x]) # fst r, snd r))
      else tile_rows thr (cur @ [x]) xs)"

definition tile :: "ItemData list \<Rightarrow> real \<Rightarrow> bool \<Rightarrow> RowData list \<times> ItemData list" where
  "tile its thr hasMore =
     (let r = tile_rows thr [] its
      in if snd r = [] \<or> hasMore then r else (fst r @ [make_row (snd r)], []))"

text \<open>A current row that is empty or still below the threshold.\<close>

definition below :: "real \<Rightarrow> ItemData list \<Rightarrow> bool" where
  "below thr its = (its = [] \<or> sum_list (map aspectRatio its) < thr)"

section \<open>Controller state (state.ts, index.ts)\<close>

text \<open>
  A request key is a value of the type parameter \<open>K\<close>, or \<open>null\<close>, or \<open>undefined\<close> (the
  response's \<open>nextRequestKey\<close> is optional).
\<close>

datatype 'k RequestKey = Undefined | Null | Key 'k

text \<open>
  What the sources leave open: the constants \<open>NUM_ROWS_PER_SECTION\<close> and \<open>MARGIN\<close> of
  \<open>./constants\<close>, which values of \<open>K\<close> JavaScript counts as true (\<open>0\<close> and \<open>""\<close>
  are not), and the imported function \<open>tile\<close>. The controller is modelled for any such
  function \<open>tile_fn\<close>; the worked examples take the model \<open>tile\<close> above for it.
\<close>

record 'k Env =
  NUM_ROWS_PER_SECTION :: nat
  MARGIN :: real
  truthy :: "'k \<Rightarrow> bool"
  tile_fn :: "ItemData list \<Rightarrow> real \<Rightarrow> bool \<Rightarrow> RowData list \<times> ItemData list"

text \<open>\<open>Boolean(key)\<close>, and a key used as a condition.\<close>

definition Boolean :: "'k Env \<Rightarrow> 'k RequestKey \<Rightarrow> bool" where
  "Boolean E k = (case k of Key x \<Rightarrow> truthy E x | _ \<Rightarrow> False)"

text \<open>
  The sets of section indices are JavaScript \<open>Set\<close>s, which keep insertion order: lists
  without repetition. The item-to-ordinal object is an association list. The callbacks
  held in the state (\<open>get\<close>, \<open>render\<close>, \<open>onItemClick\<close>, \<open>updater\<close>) are external and the
  field \<open>items\<close> is never used: they are left out.
\<close>

record 'k State =
  containerHeight :: "real option"
  width :: "real option"
  height :: real
  currentRequestKey :: "'k RequestKey"
  currentRemainder :: "ItemData list"
  currentRowRemainder :: "RowData list"
  sections :: "SectionElement list"
  options :: Options
  activeSection :: int
  lastSection :: int
  clean :: "int list"
  shownSections :: "int list"
  nextItemIndex :: nat
  itemIndexMap :: "(string \<times> nat) list"

record OptionalOptions =
  opt_margin :: "real option"
  opt_rowAspectRatioThreshold :: "real option"

record 'k FlashlightConfig =
  initialRequestKey :: "'k RequestKey"
  config_options :: OptionalOptions

text \<open>
  The controller object. Of its container only \<open>parentElement\<close> is kept, as whether
  there is one (\<open>isAttached()\<close>). \<open>pending\<close> is not a field of the source: it lists the
  keys of the pager calls whose promise is not settled yet, oldest first.
\<close>

record 'k Flashlight =
  loading :: bool
  parentElement :: bool
  state :: "'k State"
  lastScrollTop :: real
  config :: "'k FlashlightConfig"
  pending :: "'k RequestKey list"

definition set_add :: "int \<Rightarrow> int list \<Rightarrow> int list" where
  "set_add x xs = (if x \<in> set xs then xs else xs @ [x])"

definition set_delete :: "int \<Rightarrow> int list \<Rightarrow> int list" where
  "set_delete x xs = removeAll x xs"

definition has :: "int list \<Rightarrow> int \<Rightarrow> bool" where
  "has xs x = (x \<in> set xs)"

text \<open>\<open>xs[i]\<close>: \<open>undefined\<close> outside the array.\<close>

definition elem_at :: "'a list \<Rightarrow> int \<Rightarrow> 'a option" where
  "elem_at xs i = (if 0 \<le> i \<and> i < int (length xs) then Some (xs ! nat i) else None)"

text \<open>\<open>null\<close> in arithmetic and comparisons is \<open>0\<close>.\<close>

definition null_as_0 :: "real option \<Rightarrow> real" where
  "null_as_0 v = (case v of None \<Rightarrow> 0 | Some x \<Rightarrow> x)"

text \<open>
  A number read back from a section right after \<open>set\<close> has stored it (\<open>set\<close> stores
  the top at its first call and the height whenever the width changes, as it does on a
  new section).
\<close>

definition stored :: "real option \<Rightarrow> real" where
  "stored v = (case v of None \<Rightarrow> 0 | Some x \<Rightarrow> x)"

text \<open>Comparisons with \<open>undefined\<close> (NaN) are false.\<close>

definition num_ge :: "real option \<Rightarrow> real \<Rightarrow> bool" where
  "num_ge a b = (case a of None \<Rightarrow> False | Some x \<Rightarrow> b \<le> x)"

definition num_le :: "real option \<Rightarrow> real \<Rightarrow> bool" where
  "num_le a b = (case a of None \<Rightarrow> False | Some x \<Rightarrow> x \<le> b)"

definition num_add :: "real option \<Rightarrow> real option \<Rightarrow> real option" where
  "num_add a b = (case (a, b) of (Some x, Some y) \<Rightarrow> Some (x + y) | _ \<Rightarrow> None)"

definition getEmptyState :: "'k FlashlightConfig \<Rightarrow> 'k State" where
  "getEmptyState c =
     \<lparr>containerHeight = None, width = None, height = 0,
      currentRequestKey = initialRequestKey c,
      currentRemainder = [], currentRowRemainder = [], sections = [],
      options = \<lparr>margin = (case opt_margin (config_options c) of None \<Rightarrow> 3 | Some m \<Rightarrow> m),
                 rowAspectRatioThreshold =
                   (case opt_rowAspectRatioThreshold (config_options c) of
                      None \<Rightarrow> 5 | Some t \<Rightarrow> t)\<rparr>,
      activeSection = 0, lastSection = 0, clean = [], shownSections = [],
      nextItemIndex = 0, itemIndexMap = []\<rparr>"

section \<open>Pagination (index.ts, get)\<close>

text \<open>The synchronous part of \<open>get()\<close>: the guard, the flag and the pager call.\<close>

definition get :: "'k Flashlight \<Rightarrow> 'k Flashlight" where
  "get F =
     (if loading F \<or> currentRequestKey (state F) = Null then F
      else F\<lparr>loading := True, pending := pending F @ [currentRequestKey (state F)]\<rparr>)"

text \<open>
  \<open>new Array(Math.ceil(rows.length / n)).fill(0).map((_) => rows.splice(0, n))\<close>, for
  the positive count that \<open>NUM_ROWS_PER_SECTION\<close> is. (With \<open>n = 0\<close> the source throws
  a \<open>RangeError\<close>; the model then returns no section.)
\<close>

definition chunks :: "nat \<Rightarrow> 'a list \<Rightarrow> 'a list list" where
  "chunks n xs = map (\<lambda>i. take n (drop (i * n) xs)) [0 ..< (length xs + n - 1) div n]"

text \<open>
  The two nested loops of the method \<open>tile\<close>, one item at a time. The map is a plain
  object: an assignment of a number to its key \<open>__proto__\<close> stores no property.
\<close>

definition assign_index :: "ItemData \<Rightarrow> 'k State \<Rightarrow> 'k State" where
  "assign_index d s =
     s\<lparr>itemIndexMap :=
         (if item_id d = ''__proto__'' then itemIndexMap s
          else AList.update (item_id d) (nextItemIndex s) (itemIndexMap s)),
       nextItemIndex := nextItemIndex s + 1\<rparr>"

text \<open>The private method \<open>tile(items, useRowRemainder)\<close>: the new state and the sections' rows.\<close>

definition Flashlight_tile ::
  "'k Env \<Rightarrow> 'k State \<Rightarrow> ItemData list \<Rightarrow> bool \<Rightarrow> 'k State \<times> RowData list list" where
  "Flashlight_tile E s its useRowRemainder =
     (let r = tile_fn E its (rowAspectRatioThreshold (options s))
                (Boolean E (currentRequestKey s));
          s1 = fold assign_index (concat (map items (fst r))) s;
          s2 = s1\<lparr>currentRemainder := snd r\<rparr>;
          rws = (if useRowRemainder then currentRowRemainder s2 @ fst r else fst r)
      in (s2, chunks (NUM_ROWS_PER_SECTION E) rws))"

text \<open>
  The body of \<open>sections.forEach\<close>: a new section is laid out below the content so far
  and pushed; then its \<open>target\<close> is handed to the intersection observer, which throws
  on \<open>undefined\<close>, before the height and the clean set are updated. A \<open>null\<close> width
  (before \<open>attach\<close>) enters the layout as \<open>0\<close>. The height read back is the one \<open>set\<close>
  has just stored.
\<close>

definition new_section :: "'k Env \<Rightarrow> 'k State \<Rightarrow> RowData list \<Rightarrow> SectionElement" where
  "new_section E s rws =
     set_call (MARGIN E) (new_SectionElement (int (length (sections s))) rws)
       (height s) (null_as_0 (width s)) (margin (options s))"

definition add_section :: "'k Env \<Rightarrow> RowData list \<Rightarrow> 'k State \<Rightarrow> 'k State result" where
  "add_section E rws s =
     (let el = new_section E s rws; s1 = s\<lparr>sections := sections s @ [el]\<rparr>
      in case target el of
           None \<Rightarrow> TypeError s1
         | Some t \<Rightarrow>
             Ok (s1\<lparr>height := height s1 + stored (getHeight el),
                    clean := set_add (index el) (clean s1)\<rparr>))"

text \<open>\<open>forEach\<close> with a body that may throw: the first throw ends the loop.\<close>

fun for_each :: "('a \<Rightarrow> 's \<Rightarrow> 's result) \<Rightarrow> 'a list \<Rightarrow> 's \<Rightarrow> 's result" where
  "for_each f [] s = Ok s"
| "for_each f (x # xs) s =
     (case f x s of TypeError s' \<Rightarrow> TypeError s' | Ok s' \<Rightarrow> for_each f xs s')"

text \<open>
  The callback of the pager's promise, in three parts. First lines 192 to 210: the rows
  are tiled and an unfilled last section is held back while more data may come.
\<close>

definition hold_back :: "'k Env \<Rightarrow> 'k RequestKey \<Rightarrow> RowData list list \<Rightarrow> bool" where
  "hold_back E nextRequestKey secs =
     (Boolean E nextRequestKey \<and> secs \<noteq> [] \<and> length (last secs) \<noteq> NUM_ROWS_PER_SECTION E)"

definition get_then_sections ::
  "'k Env \<Rightarrow> 'k Flashlight \<Rightarrow> ItemData list \<times> 'k RequestKey
     \<Rightarrow> 'k Flashlight \<times> RowData list list" where
  "get_then_sections E F resp =
     (let s1 = (state F)\<lparr>currentRequestKey := snd resp\<rparr>;
          t = Flashlight_tile E s1 (currentRemainder s1 @ fst resp) True
      in if hold_back E (snd resp) (snd t)
         then (let F1 = F\<lparr>state := (fst t)\<lparr>currentRowRemainder := last (snd t)\<rparr>\<rparr>
               in (if butlast (snd t) = [] then get F1 else F1, butlast (snd t)))
         else (F\<lparr>state := (fst t)\<lparr>currentRowRemainder := []\<rparr>\<rparr>, snd t))"

text \<open>
  Lines 211 to 236: the sections are appended, the key is stored, the flag is cleared. A
  throw in the loop leaves the rest undone.
\<close>

definition get_then_appended ::
  "'k Env \<Rightarrow> 'k Flashlight \<Rightarrow> ItemData list \<times> 'k RequestKey \<Rightarrow> 'k Flashlight result" where
  "get_then_appended E F resp =
     (let r = get_then_sections E F resp
      in case for_each (add_section E) (snd r) (state (fst r)) of
           TypeError s \<Rightarrow> TypeError ((fst r)\<lparr>state := s\<rparr>)
         | Ok s3 \<Rightarrow>
             Ok ((fst r)\<lparr>state := s3\<lparr>currentRequestKey := snd resp\<rparr>, loading := False\<rparr>))"

text \<open>Lines 238 to 244: the condition under which \<open>get()\<close> is called again.\<close>

definition get_again ::
  "'k Env \<Rightarrow> 'k Flashlight \<Rightarrow> RowData list list \<Rightarrow> 'k RequestKey \<Rightarrow> bool" where
  "get_again E F secs nextRequestKey =
     (height (state F) \<le> null_as_0 (containerHeight (state F)) \<or>
      (secs = [] \<and> Boolean E nextRequestKey) \<or>
      (case elem_at (sections (state F)) (int (length (sections (state F))) - 1) of
         None \<Rightarrow> False
       | Some headSection \<Rightarrow> has (shownSections (state F)) (index headSection)))"

definition get_then ::
  "'k Env \<Rightarrow> 'k Flashlight \<Rightarrow> ItemData list \<times> 'k RequestKey \<Rightarrow> 'k Flashlight result" where
  "get_then E F resp =
     (case get_then_appended E F resp of
        TypeError G \<Rightarrow> TypeError G
      | Ok F4 \<Rightarrow>
          Ok (if get_again E F4 (snd (get_then_sections E F resp)) (snd resp)
              then get F4 else F4))"

text \<open>The oldest pending promise settles: fulfilled with a response, or rejected.\<close>

definition resolve ::
  "'k Env \<Rightarrow> 'k Flashlight \<Rightarrow> ItemData list \<times> 'k RequestKey \<Rightarrow> 'k Flashlight result" where
  "resolve E F resp =
     (case pending F of [] \<Rightarrow> Ok F | k # ks \<Rightarrow> get_then E (F\<lparr>pending := ks\<rparr>) resp)"

definition reject :: "'k Flashlight \<Rightarrow> 'k Flashlight" where
  "reject F = F\<lparr>pending := tl (pending F)\<rparr>"

section \<open>Options (index.ts, updateOptions)\<close>

definition retile :: "Options \<Rightarrow> OptionalOptions \<Rightarrow> bool" where
  "retile ops p =
     ((case opt_margin p of None \<Rightarrow> False | Some m \<Rightarrow> margin ops \<noteq> m) \<or>
      (case opt_rowAspectRatioThreshold p of
         None \<Rightarrow> False | Some t \<Rightarrow> rowAspectRatioThreshold ops \<noteq> t))"

definition merge_options :: "Options \<Rightarrow> OptionalOptions \<Rightarrow> Options" where
  "merge_options ops p =
     \<lparr>margin = (case opt_margin p of None \<Rightarrow> margin ops | Some m \<Rightarrow> m),
      rowAspectRatioThreshold =
        (case opt_rowAspectRatioThreshold p of
           None \<Rightarrow> rowAspectRatioThreshold ops | Some t \<Rightarrow> t)\<rparr>"

text \<open>The synchronous part: the merged controller, and whether a rebuild is scheduled.\<close>

definition updateOptions :: "'k Flashlight \<Rightarrow> OptionalOptions \<Rightarrow> 'k Flashlight \<times> bool" where
  "updateOptions F p =
     (F\<lparr>state := (state F)\<lparr>options := merge_options (options (state F)) p\<rparr>\<rparr>,
      retile (options (state F)) p)"

text \<open>The scheduled rebuild, lines 115 to 164.\<close>

definition rebuilt_items :: "'k State \<Rightarrow> ItemData list" where
  "rebuilt_items s =
     concat (map getItems (sections s)) @ concat (map items (currentRowRemainder s))"

definition add_section_rebuild ::
  "'k Env \<Rightarrow> RowData list \<Rightarrow> 'k State \<Rightarrow> 'k State result" where
  "add_section_rebuild E rws s =
     (let el = new_section E s rws; s1 = s\<lparr>sections := sections s @ [el]\<rparr>
      in case target el of
           None \<Rightarrow> TypeError s1
         | Some t \<Rightarrow> Ok (s1\<lparr>height := height s1 + stored (getHeight el)\<rparr>))"

definition rebuild :: "'k Env \<Rightarrow> 'k Flashlight \<Rightarrow> 'k Flashlight result" where
  "rebuild E F =
     (let t = Flashlight_tile E (state F) (rebuilt_items (state F)) False;
          more = Boolean E (currentRequestKey (fst t))
      in if more \<and> snd t = [] then TypeError (F\<lparr>state := fst t\<rparr>)
         else
           (let r = (if more \<and> length (last (snd t)) \<noteq> NUM_ROWS_PER_SECTION E
                     then (let F1 = F\<lparr>state := (fst t)\<lparr>currentRowRemainder := last (snd t)\<rparr>\<rparr>
                           in (if butlast (snd t) = [] then get F1 else F1, butlast (snd t)))
                     else (F\<lparr>state := (fst t)\<lparr>currentRowRemainder := []\<rparr>\<rparr>, snd t));
                s3 = (state (fst r))\<lparr>height := 0, sections := [], shownSections := [], clean := []\<rparr>
            in case for_each (add_section_rebuild E) (snd r) s3 of
                 TypeError s \<Rightarrow> TypeError ((fst r)\<lparr>state := s\<rparr>)
               | Ok s4 \<Rightarrow> Ok ((fst r)\<lparr>state := s4\<rparr>)))"

section \<open>Visibility (index.ts, setObservers)\<close>

text \<open>
  The helpers of \<open>setObservers\<close>. Before it mounts a section that is not clean,
  \<open>showSection\<close> calls the external updater for its items; those calls are left out.
  It then calls \<open>section.show()\<close> without an element: on a section that is not attached
  the call throws, before the index is added to \<open>shownSections\<close>.
\<close>

definition showSection :: "'k State \<Rightarrow> int \<Rightarrow> 'k State result" where
  "showSection s i =
     (case elem_at (sections s) i of
        None \<Rightarrow> Ok s
      | Some section \<Rightarrow>
          if isShown section then Ok s
          else (case show_section section None of
                  TypeError sec \<Rightarrow> TypeError s
                | Ok sec \<Rightarrow>
                    Ok (s\<lparr>sections := (sections s)[nat i := sec],
                           shownSections := set_add (index section) (shownSections s)\<rparr>)))"

definition hideSection :: "'k State \<Rightarrow> int \<Rightarrow> 'k State" where
  "hideSection s i =
     (case elem_at (sections s) i of
        None \<Rightarrow> s
      | Some section \<Rightarrow>
          if \<not> isShown section then s
          else s\<lparr>sections := (sections s)[nat i := hide section],
                 shownSections := set_delete (index section) (shownSections s)\<rparr>)"

text \<open>The body of the loop of \<open>clearOutsideSections\<close>, and the loop over a copy of the set.\<close>

definition clear_outside :: "int \<Rightarrow> 'k State \<Rightarrow> 'k State" where
  "clear_outside i s =
     (if i < activeSection s \<or> i > lastSection s then hideSection s i else s)"

definition clearOutsideSections :: "'k State \<Rightarrow> 'k State" where
  "clearOutsideSections s = fold clear_outside (shownSections s) s"

definition requestMore :: "'k Env \<Rightarrow> 'k Flashlight \<Rightarrow> 'k Flashlight" where
  "requestMore E F =
     (if Boolean E (currentRequestKey (state F)) \<and>
         lastSection (state F) \<ge> int (length (sections (state F))) - 2
      then get F else F)"

definition finalize :: "'k Env \<Rightarrow> 'k Flashlight \<Rightarrow> 'k Flashlight" where
  "finalize E F = requestMore E (F\<lparr>state := clearOutsideSections (state F)\<rparr>)"

text \<open>
  Scrolling down, the first loop: back from the reported section while sections start at
  or below the scroll offset. \<open>None\<close> is the \<open>TypeError\<close> of \<open>getTop\<close> on \<open>undefined\<close>.
\<close>

function down_while :: "SectionElement list \<Rightarrow> real \<Rightarrow> int \<Rightarrow> SectionElement \<Rightarrow> int option" where
  "down_while secs scrollTop revealingIndex revealing =
     (if revealingIndex > 0 \<and> num_ge (getTop revealing) scrollTop
      then (case elem_at secs (revealingIndex - 1) of
              None \<Rightarrow> if revealingIndex - 1 > 0 then None else Some (revealingIndex - 1)
            | Some r \<Rightarrow> down_while secs scrollTop (revealingIndex - 1) r)
      else Some revealingIndex)"
  by pat_completeness auto
termination
  by (relation "measure (\<lambda>(secs, scrollTop, revealingIndex, revealing). nat revealingIndex)") auto

text \<open>
  The \<open>do ... while\<close> loop that mounts sections downwards. It follows the sections'
  \<open>index\<close> fields, so it is partial: \<open>None\<close> is a loop that does not end. It ends with
  the state at a throw of \<open>showSection\<close> (\<open>Inl\<close>), or with the state, \<open>revealingIndex\<close>
  and \<open>revealing\<close> (\<open>Inr\<close>).
\<close>

partial_function (option) down_do ::
  "'k State \<Rightarrow> real \<Rightarrow> int \<Rightarrow> SectionElement
     \<Rightarrow> ('k State + 'k State \<times> int \<times> SectionElement option) option" where
  "down_do s bottom revealingIndex revealing =
     (case showSection s revealingIndex of
        TypeError s1 \<Rightarrow> Some (Inl s1)
      | Ok s1 \<Rightarrow>
          (case elem_at (sections s1) (index revealing + 1) of
             None \<Rightarrow> Some (Inr (s1, index revealing + 1, None))
           | Some r \<Rightarrow>
               if num_le (getTop r) bottom
               then down_do s1 bottom (index revealing + 1) r
               else Some (Inr (s1, index revealing + 1, Some r))))"

declare down_do.simps [code]

text \<open>The branch for scrolling down, lines 320 to 349. \<open>None\<close>: it does not return.\<close>

definition sweep_down :: "'k State \<Rightarrow> real \<Rightarrow> SectionElement \<Rightarrow> 'k State result option" where
  "sweep_down s scrollTop section =
     (case down_while (sections s) scrollTop (index section) section of
        None \<Rightarrow> Some (TypeError s)
      | Some ri \<Rightarrow>
          (case elem_at (sections s) (max 0 (ri - 1)) of
             None \<Rightarrow> Some (TypeError (s\<lparr>activeSection := max 0 (ri - 1)\<rparr>))
           | Some revealing \<Rightarrow>
               (case down_do (s\<lparr>activeSection := max 0 (ri - 1)\<rparr>)
                       (scrollTop + null_as_0 (containerHeight s)) (max 0 (ri - 1)) revealing of
                  None \<Rightarrow> None
                | Some (Inl s2) \<Rightarrow> Some (TypeError s2)
                | Some (Inr (s2, ri2, revealing2)) \<Rightarrow>
                    (let l = (if revealing2 = None then ri2 - 1 else ri2)
                     in Some (showSection (s2\<lparr>lastSection := l\<rparr>) l)))))"

text \<open>Scrolling up, the first loop: forward while sections start inside the viewport.\<close>

function up_while :: "SectionElement list \<Rightarrow> real \<Rightarrow> int \<Rightarrow> SectionElement \<Rightarrow> int option" where
  "up_while secs bottom revealingIndex revealing =
     (if revealingIndex > 0 \<and> num_le (getTop revealing) bottom
      then (case elem_at secs (revealingIndex + 1) of
              None \<Rightarrow> None
            | Some r \<Rightarrow> up_while secs bottom (revealingIndex + 1) r)
      else Some revealingIndex)"
  by pat_completeness auto
termination
  by (relation "measure (\<lambda>(secs, bottom, revealingIndex, revealing).
                  nat (int (length secs) - revealingIndex))")
    (auto simp: elem_at_def split: if_splits)

partial_function (option) up_do ::
  "'k State \<Rightarrow> real \<Rightarrow> int \<Rightarrow> SectionElement
     \<Rightarrow> ('k State + 'k State \<times> int \<times> SectionElement option) option" where
  "up_do s scrollTop revealingIndex revealing =
     (case showSection s revealingIndex of
        TypeError s1 \<Rightarrow> Some (Inl s1)
      | Ok s1 \<Rightarrow>
          (case elem_at (sections s1) (index revealing - 1) of
             None \<Rightarrow> Some (Inr (s1, index revealing - 1, None))
           | Some r \<Rightarrow>
               if num_ge (num_add (getTop r) (getHeight r)) scrollTop
               then up_do s1 scrollTop (index revealing - 1) r
               else Some (Inr (s1, index revealing - 1, Some r))))"

declare up_do.simps [code]

text \<open>The branch for scrolling up, lines 354 to 386.\<close>

definition sweep_up :: "'k State \<Rightarrow> real \<Rightarrow> SectionElement \<Rightarrow> 'k State result option" where
  "sweep_up s scrollTop section =
     (case up_while (sections s) (scrollTop + null_as_0 (containerHeight s))
             (index section) section of
        None \<Rightarrow> Some (TypeError s)
      | Some ri \<Rightarrow>
          (let l = min (int (length (sections s)) - 1) (ri + 1)
           in case elem_at (sections s) l of
                None \<Rightarrow> Some (TypeError (s\<lparr>lastSection := l\<rparr>))
              | Some revealing \<Rightarrow>
                  (case up_do (s\<lparr>lastSection := l\<rparr>) scrollTop l revealing of
                     None \<Rightarrow> None
                   | Some (Inl s2) \<Rightarrow> Some (TypeError s2)
                   | Some (Inr (s2, ri2, revealing2)) \<Rightarrow>
                       (let a = (if revealing2 = None then ri2 + 1 else ri2)
                        in Some (showSection (s2\<lparr>activeSection := a\<rparr>) a)))))"

text \<open>
  Lines 314 to 317: an intersecting entry's section is shown and its index added to the
  set once more.
\<close>

definition show_entry :: "'k State \<Rightarrow> SectionElement \<Rightarrow> real \<Rightarrow> 'k State result" where
  "show_entry s section intersectionRatio =
     (if intersectionRatio \<noteq> 0
      then (case showSection s (index section) of
              TypeError s1 \<Rightarrow> TypeError s1
            | Ok s1 \<Rightarrow>
                Ok (s1\<lparr>shownSections := set_add (index section) (shownSections s1)\<rparr>))
      else Ok s)"

text \<open>
  The loop over the entries of a batch. An entry is the index its target carries (one
  outside the list when it carries none: \<open>parseInt\<close> then gives \<open>NaN\<close>) and its
  intersection ratio. The loop ends at the first entry whose section is shown.
\<close>

fun observe_entries ::
  "'k Env \<Rightarrow> 'k Flashlight \<Rightarrow> real \<Rightarrow> bool \<Rightarrow> (int \<times> real) list
     \<Rightarrow> 'k Flashlight result option" where
  "observe_entries E F scrollTop down [] = Some (Ok F)"
| "observe_entries E F scrollTop down ((entry_index, intersectionRatio) # rest) =
     (case elem_at (sections (state F)) entry_index of
        None \<Rightarrow> Some (TypeError F)
      | Some section \<Rightarrow>
          (case show_entry (state F) section intersectionRatio of
             TypeError s1 \<Rightarrow> Some (TypeError (F\<lparr>state := s1\<rparr>))
           | Ok s1 \<Rightarrow>
               if has (shownSections s1) (index section)
               then (case (if down then sweep_down s1 scrollTop section
                           else sweep_up s1 scrollTop section) of
                       None \<Rightarrow> None
                     | Some (TypeError s2) \<Rightarrow> Some (TypeError (F\<lparr>state := s2\<rparr>))
                     | Some (Ok s2) \<Rightarrow> Some (Ok (finalize E (F\<lparr>state := s2\<rparr>))))
               else observe_entries E (F\<lparr>state := s1\<rparr>) scrollTop down rest))"

text \<open>
  The observer's callback for one batch, at the scroll offset it reads from the
  container's parent; without a parent the read throws.
\<close>

definition observe ::
  "'k Env \<Rightarrow> 'k Flashlight \<Rightarrow> real \<Rightarrow> (int \<times> real) list \<Rightarrow> 'k Flashlight result option" where
  "observe E F currentScrollTop entries =
     (if \<not> parentElement F then Some (TypeError F)
      else (case observe_entries E F currentScrollTop (lastScrollTop F \<le> currentScrollTop)
                   entries of
              Some (Ok F') \<Rightarrow> Some (Ok (F'\<lparr>lastScrollTop := currentScrollTop\<rparr>))
            | r \<Rightarrow> r))"

section \<open>The other operations (index.ts)\<close>

definition constructor :: "'k FlashlightConfig \<Rightarrow> 'k Flashlight" where
  "constructor c =
     (get \<lparr>loading = False, parentElement = False, state = getEmptyState c, lastScrollTop = 0,
           config = c, pending = []\<rparr>)\<lparr>lastScrollTop := 0\<rparr>"

text \<open>
  \<open>attach\<close> measures the host element it is given and appends the container to it;
  the element's width and height are given. \<open>reset\<close> measures the container's parent,
  after it has emptied the state: without a parent the measurement throws. (The new
  container takes the place of the old one, under the same parent.)
\<close>

definition attach :: "'k Flashlight \<Rightarrow> real \<Rightarrow> real \<Rightarrow> 'k Flashlight" where
  "attach F w h =
     F\<lparr>state := (state F)\<lparr>width := Some (w - 16), containerHeight := Some h\<rparr>,
       parentElement := True\<rparr>"

definition reset :: "'k Flashlight \<Rightarrow> real \<Rightarrow> real \<Rightarrow> 'k Flashlight result" where
  "reset F w h =
     (if \<not> parentElement F then TypeError (F\<lparr>state := getEmptyState (config F)\<rparr>)
      else Ok (get (F\<lparr>state := (getEmptyState (config F))\<lparr>width := Some (w - 16),
                                                             containerHeight := Some h\<rparr>\<rparr>)))"

definition updateItems :: "'k Flashlight \<Rightarrow> 'k Flashlight" where
  "updateItems F = F\<lparr>state := (state F)\<lparr>clean := []\<rparr>\<rparr>"

fun reposition_sections ::
  "real \<Rightarrow> real \<Rightarrow> real \<Rightarrow> real \<Rightarrow> SectionElement list \<Rightarrow> SectionElement list" where
  "reposition_sections MG w m h [] = []"
| "reposition_sections MG w m h (section # rest) =
     set_call MG section h w m
     # reposition_sections MG w m (h + stored (getHeight (set_call MG section h w m))) rest"

definition reposition :: "'k Env \<Rightarrow> 'k Flashlight \<Rightarrow> real \<Rightarrow> 'k Flashlight result" where
  "reposition E F w =
     (if Some w = width (state F) then Ok F
      else (let secs = reposition_sections (MARGIN E) w (margin (options (state F))) 0
                         (sections (state F));
                F1 = F\<lparr>state := (state F)\<lparr>width := Some w, sections := secs\<rparr>\<rparr>
            in case elem_at secs (activeSection (state F)) of
                 None \<Rightarrow> TypeError F1
               | Some a \<Rightarrow>
                   (case target a of
                      None \<Rightarrow> TypeError F1
                    | Some t \<Rightarrow> Ok (F1\<lparr>lastScrollTop := stored (getTop a)\<rparr>))))"

section \<open>Sequences of operations\<close>

datatype 'k event =
    Attach real real
  | Reset real real
  | UpdateOptions OptionalOptions
  | Rebuild
  | UpdateItems
  | Resolve "ItemData list" "'k RequestKey"
  | Reject
  | Observe real "(int \<times> real) list"
  | Reposition real

fun step :: "'k Env \<Rightarrow> 'k event \<Rightarrow> 'k Flashlight \<Rightarrow> 'k Flashlight result option" where
  "step E (Attach w h) F = Some (Ok (attach F w h))"
| "step E (Reset w h) F = Some (reset F w h)"
| "step E (UpdateOptions p) F = Some (Ok (fst (updateOptions F p)))"
| "step E Rebuild F = Some (rebuild E F)"
| "step E UpdateItems F = Some (Ok (updateItems F))"
| "step E (Resolve its k) F = Some (resolve E F (its, k))"
| "step E Reject F = Some (Ok (reject F))"
| "step E (Observe scrollTop entries) F = observe E F scrollTop entries"
| "step E (Reposition w) F = Some (reposition E F w)"

fun run :: "'k Env \<Rightarrow> 'k event list \<Rightarrow> 'k Flashlight \<Rightarrow> 'k Flashlight option" where
  "run E [] F = Some F"
| "run E (ev # evs) F = (case step E ev F of None \<Rightarrow> None | Some r \<Rightarrow> run E evs (after r))"

section \<open>Single flight\<close>

text \<open>At most one pager call is pending, and while one is the flag is set.\<close>

definition single_flight :: "'k Flashlight \<Rightarrow> bool" where
  "single_flight F = (length (pending F) \<le> 1 \<and> (pending F \<noteq> [] \<longrightarrow> loading F))"

text \<open>
  What an operation other than a promise's resolution does to the flag and to the pending
  calls: nothing, or one call more with the flag, which was clear, now set.
\<close>

definition flight_step :: "'k Flashlight \<Rightarrow> 'k Flashlight \<Rightarrow> bool" where
  "flight_step F G =
     ((loading G = loading F \<and> pending G = pending F) \<or>
      (\<not> loading F \<and> loading G \<and> (\<exists>k. pending G = pending F @ [k])))"

definition is_Resolve :: "'k event \<Rightarrow> bool" where
  "is_Resolve ev = (case ev of Resolve its k \<Rightarrow> True | _ \<Rightarrow> False)"

section \<open>Nothing is mounted\<close>

text \<open>
  What \<open>show()\<close> without an element and the missing \<open>target\<close> leave of the visibility
  state: every section carries its position as \<open>index\<close> and is detached, no index is in
  \<open>shownSections\<close>, the window is where the empty state put it and no height has been
  added.
\<close>

definition never_mounted :: "'k State \<Rightarrow> bool" where
  "never_mounted s =
     (map index (sections s) = map int [0 ..< length (sections s)] \<and>
      list_all (\<lambda>section. \<not> attached section) (sections s) \<and>
      shownSections s = [] \<and> activeSection s = 0 \<and> lastSection s = 0 \<and> height s = 0)"

section \<open>Worked examples\<close>

definition item :: "string \<Rightarrow> real \<Rightarrow> ItemData" where
  "item n a = \<lparr>item_id = n, aspectRatio = a\<rparr>"

text \<open>A row of two square items, and a section of that one row laid out at width 103.\<close>

definition ex_row :: RowData where
  "ex_row = \<lparr>items = [item ''a'' 1, item ''b'' 1], row_aspectRatio = 2, extraMargins = None\<rparr>"

definition ex_section :: SectionElement where
  "ex_section = SectionElement_set 3 (new_SectionElement 0 [ex_row]) 0 103"

text \<open>Four items of aspect ratios 2, 2, 2 and 1.\<close>

definition ex_items :: "ItemData list" where
  "ex_items = [item ''a'' 2, item ''b'' 2, item ''c'' 2, item ''d'' 1]"

text \<open>
  A controller with one row per section, keys that are page numbers, and the default
  options; the section of one item of aspect ratio 5 at width 100.
\<close>

definition ex_env :: "nat Env" where
  "ex_env = \<lparr>NUM_ROWS_PER_SECTION = 1, MARGIN = 3, truthy = (\<lambda>k. k \<noteq> 0), tile_fn = tile\<rparr>"

definition ex_config :: "nat FlashlightConfig" where
  "ex_config = \<lparr>initialRequestKey = Key 1,
                 config_options = \<lparr>opt_margin = None, opt_rowAspectRatioThreshold = None\<rparr>\<rparr>"


text \<open>
  The controller after its construction and \<open>attach\<close> to a host 116 wide and 50 high:
  the first fetch is under way.
\<close>

definition ex_started :: "nat Flashlight" where
  "ex_started =
     \<lparr>loading = True, parentElement = True,
      state =
        \<lparr>containerHeight = Some 50, width = Some 100, height = 0,
         currentRequestKey = Key 1, currentRemainder = [], currentRowRemainder = [],
         sections = [],
         options = \<lparr>margin = 3, rowAspectRatioThreshold = 5\<rparr>,
         activeSection = 0, lastSection = 0, clean = [], shownSections = [],
         nextItemIndex = 0, itemIndexMap = []\<rparr>,
      lastScrollTop = 0, config = ex_config, pending = [Key 1]\<rparr>"


text \<open>
  The state right after a first response without items and without \<open>nextRequestKey\<close>
  has been applied, before line 240.
\<close>

definition ex_exhausted :: "nat Flashlight" where
  "ex_exhausted = after (get_then_appended ex_env (ex_started\<lparr>pending := []\<rparr>) ([], Undefined))"

text \<open>
  Two rows per section. A first page of an item of aspect ratio 5 and one of aspect ratio
  1 fills one row, held back as row remainder, and leaves the second item as remainder.
\<close>

definition ex_env2 :: "nat Env" where
  "ex_env2 = \<lparr>NUM_ROWS_PER_SECTION = 2, MARGIN = 3, truthy = (\<lambda>k. k \<noteq> 0), tile_fn = tile\<rparr>"

definition ex_withheld :: "nat Flashlight" where
  "ex_withheld =
     \<lparr>loading = True, parentElement = True,
      state =
        \<lparr>containerHeight = Some 50, width = Some 100, height = 0,
         currentRequestKey = Key 2, currentRemainder = [item ''c'' 1],
         currentRowRemainder = [make_row [item ''a'' 5]], sections = [],
         options = \<lparr>margin = 3, rowAspectRatioThreshold = 5\<rparr>,
         activeSection = 0, lastSection = 0, clean = [], shownSections = [],
         nextItemIndex = 1, itemIndexMap = [(''a'', 0)]\<rparr>,
      lastScrollTop = 0, config = ex_config, pending = [Key 2]\<rparr>"

text \<open>All the items a controller holds: in its sections, in the row remainder, in the remainder.\<close>

definition held_items :: "'k State \<Rightarrow> ItemData list" where
  "held_items s =
     concat (map getItems (sections s)) @ concat (map items (currentRowRemainder s))
     @ currentRemainder s"

text \<open>The items of the rows that a pass of the method \<open>tile\<close> emits.\<close>

definition emitted :: "'k Env \<Rightarrow> 'k State \<Rightarrow> ItemData list \<Rightarrow> ItemData list" where
  "emitted E s its =
     concat (map items
       (fst (tile_fn E its (rowAspectRatioThreshold (options s))
               (Boolean E (currentRequestKey s)))))"

section \<open>The claims in the spec's words\<close>

text \<open>A cursor is exhausted when it is \<open>null\<close> or absent.\<close>

definition exhausted :: "'k RequestKey \<Rightarrow> bool" where
  "exhausted k = (k = Null \<or> k = Undefined)"

section \<open>Section layout\<close>

lemma set_items_styles:
  "(el, d) \<in> set (set_items MG h lt left its) \<Longrightarrow>
     style_height el = Some h \<and> style_width el = Some (h * aspectRatio d) \<and>
     style_top el = Some lt"
  by (induction MG h lt left its rule: set_items.induct) auto

lemma set_items_data: "map snd (set_items MG h lt left its) = map snd its"
  by (induction MG h lt left its rule: set_items.induct) auto

lemma set_items_length: "length (set_items MG h lt left its) = length its"
  by (induction MG h lt left its rule: set_items.induct) auto

lemma set_rows_styles:
  "(m, its) \<in> set (fst (set_rows MG w lt rs)) \<Longrightarrow> (el, d) \<in> set its \<Longrightarrow>
     style_height el = Some (row_height MG w m (length its)) \<and>
     style_width el = Some (row_height MG w m (length its) * aspectRatio d)"
proof (induction MG w lt rs rule: set_rows.induct)
  case (1 MG w localTop)
  then show ?case by simp
next
  case (2 MG w localTop m' its' rest)
  then show ?case
    by (auto simp: Let_def set_items_length dest: set_items_styles)
qed

lemma set_rows_data:
  "map (\<lambda>(m, row). map snd row) (fst (set_rows MG w lt rs)) = map (\<lambda>(m, row). map snd row) rs"
  by (induction MG w lt rs rule: set_rows.induct) (auto simp: Let_def set_items_data)

text \<open>
  What \<open>set\<close> computes when the width changes: in every row, the height is
  \<open>(width - (itemCount - 1 + extraMargins) * MARGIN) / rowAspectRatio\<close> and every item is
  \<open>height * itemAspectRatio\<close> wide, \<open>MARGIN\<close> being the constant of \<open>./constants\<close>.
\<close>

lemma set_layout:
  assumes "sec_width s \<noteq> Some w"
    and "(m, its) \<in> set (rows (SectionElement_set MG s t w))"
    and "(el, d) \<in> set its"
  shows "style_height el = Some ((w - (real (length its) - 1 + extraMargins_or_0 (snd m)) * MG) / fst m)
       \<and> style_width el =
           Some ((w - (real (length its) - 1 + extraMargins_or_0 (snd m)) * MG) / fst m * aspectRatio d)"
proof -
  from assms(1) have "rows (SectionElement_set MG s t w) = fst (set_rows MG w 0 (rows s))"
    by (simp add: SectionElement_set_def set_top_def set_width_def Let_def)
  with assms(2) have "(m, its) \<in> set (fst (set_rows MG w 0 (rows s)))" by simp
  from set_rows_styles[OF this assms(3)] show ?thesis
    by (simp add: row_height_def)
qed

text \<open>
  C8. The claim takes the margin of the row-height formula to be the controller's
  \<open>margin\<close> option. The controller does pass the option to \<open>set\<close>, as a third argument,
  but \<open>set\<close> has two parameters and computes with the constant \<open>MARGIN\<close>. With the
  constant at 3 and the option at 10, a row of two square items at width 103 is laid out
  50 high, as it is with the option at 3; the claim's formula gives 46.5.
\<close>

theorem set_ignores_margin_option:
  "rows (set_call 3 (new_SectionElement 0 [ex_row]) 0 103 10) =
     rows (set_call 3 (new_SectionElement 0 [ex_row]) 0 103 3) \<and>
   map (\<lambda>(el, d). style_height el)
     (snd (hd (rows (set_call 3 (new_SectionElement 0 [ex_row]) 0 103 10)))) = [Some 50, Some 50] \<and>
   row_height 10 103 (row_aspectRatio ex_row, extraMargins ex_row) (length (items ex_row)) = 93 / 2"
  by (simp add: set_call_def SectionElement_set_def set_top_def set_width_def
      new_SectionElement_def ex_row_def item_def createElement_def row_height_def
      extraMargins_or_0_def Let_def)

text \<open>
  C9. \<open>set\<close> is idempotent: called with the top and the width the section already holds
  it changes nothing, and a second \<open>set(t, w)\<close> after a first changes nothing more.
\<close>

theorem SectionElement_set_idempotent:
  "(sec_top s = Some t \<and> sec_width s = Some w \<longrightarrow> SectionElement_set MG s t w = s) \<and>
   SectionElement_set MG (SectionElement_set MG s t w) t w = SectionElement_set MG s t w"
  by (simp add: SectionElement_set_def set_top_def set_width_def Let_def)

lemma ex_section_value:
  "ex_section =
     \<lparr>attached = False, sec_top = Some 0, sec_width = Some 103, sec_height = Some 53,
      index = 0,
      rows = [((2, None),
               [(\<lparr>style_height = Some 50, style_width = Some 50, style_left = Some 0,
                   style_top = Some 0\<rparr>, item ''a'' 1),
                (\<lparr>style_height = Some 50, style_width = Some 50, style_left = Some 53,
                   style_top = Some 0\<rparr>, item ''b'' 1)])],
      section_style_top = Some 0, section_style_height = Some 53\<rparr>"
  by (simp add: ex_section_def SectionElement_set_def set_top_def set_width_def
      new_SectionElement_def ex_row_def item_def createElement_def row_height_def
      extraMargins_or_0_def Let_def)

theorem SectionElement_set_idempotent_witness:
  "sec_top ex_section = Some 0 \<and> sec_width ex_section = Some 103 \<and>
   SectionElement_set 3 ex_section 0 103 = ex_section \<and>
   SectionElement_set 3 (SectionElement_set 3 ex_section 0 103) 0 103 = ex_section"
proof -
  have h: "sec_top ex_section = Some 0 \<and> sec_width ex_section = Some 103"
    by (simp add: ex_section_value)
  with SectionElement_set_idempotent[of ex_section 0 103 3] show ?thesis by simp
qed

text \<open>
  C10. \<open>set\<close> with a changed top and an unchanged width moves the section and nothing
  else: the stored width and height, the section's height style and every item's
  placement stay as they were.
\<close>

theorem set_changed_top_only:
  assumes "sec_width s = Some w" and "sec_top s \<noteq> Some t"
  shows "SectionElement_set MG s t w = s\<lparr>section_style_top := Some t, sec_top := Some t\<rparr> \<and>
         rows (SectionElement_set MG s t w) = rows s \<and>
         sec_width (SectionElement_set MG s t w) = sec_width s \<and>
         sec_height (SectionElement_set MG s t w) = sec_height s \<and>
         section_style_height (SectionElement_set MG s t w) = section_style_height s \<and>
         sec_top (SectionElement_set MG s t w) = Some t"
  using assms by (simp add: SectionElement_set_def set_top_def set_width_def Let_def)

theorem set_changed_top_only_witness:
  "sec_width ex_section = Some 103 \<and> sec_top ex_section \<noteq> Some 7 \<and>
   rows (SectionElement_set 3 ex_section 7 103) = rows ex_section \<and>
   sec_height (SectionElement_set 3 ex_section 7 103) = Some 53 \<and>
   sec_top (SectionElement_set 3 ex_section 7 103) = Some 7"
proof -
  have h1: "sec_width ex_section = Some 103" by (simp add: ex_section_value)
  have h2: "sec_top ex_section \<noteq> Some 7" by (simp add: ex_section_value)
  have h3: "sec_height ex_section = Some 53" by (simp add: ex_section_value)
  from set_changed_top_only[OF h1 h2, of 3] h1 h2 h3 show ?thesis by simp
qed

section \<open>Tiling\<close>

lemma tile_rows_props:
  "below thr cur \<Longrightarrow>
     (\<forall>r \<in> set (fst (tile_rows thr cur xs)).
        thr \<le> sum_list (map aspectRatio (items r)) \<and>
        row_aspectRatio r = sum_list (map aspectRatio (items r))) \<and>
     concat (map items (fst (tile_rows thr cur xs))) @ snd (tile_rows thr cur xs) = cur @ xs \<and>
     below thr (snd (tile_rows thr cur xs))"
proof (induction thr cur xs rule: tile_rows.induct)
  case (1 thr cur)
  then show ?case by simp
next
  case (2 thr cur x xs)
  show ?case
  proof (cases "thr \<le> sum_list (map aspectRatio (cur @ [x]))")
    case True
    have "below thr []" by (simp add: below_def)
    with 2(1)[OF True] True show ?thesis
      by (simp add: Let_def make_row_def)
  next
    case False
    then have "below thr (cur @ [x])" by (simp add: below_def)
    with 2(2)[OF False] False show ?thesis by simp
  qed
qed

lemma tile_concat:
  "concat (map items (fst (tile its thr hasMore))) @ snd (tile its thr hasMore) = its"
proof -
  have b: "below thr []" by (simp add: below_def)
  from tile_rows_props[OF b, of its] show ?thesis
    by (auto simp: tile_def Let_def make_row_def)
qed

text \<open>
  C2. Every row of a tiling pass but the last reaches the threshold with the sum of its
  items' aspect ratios, which is the row's achieved aspect ratio. With \<open>hasMore\<close> every
  row reaches it, the last included: the tail that stays below the threshold is not
  emitted as a row but returned as remainder, after the rows' items in the input's
  order. Without \<open>hasMore\<close> nothing is withheld.
\<close>

theorem tile_threshold:
  "(\<forall>r \<in> set (butlast (fst (tile its thr hasMore))).
      thr \<le> sum_list (map aspectRatio (items r))) \<and>
   (\<forall>r \<in> set (fst (tile its thr hasMore)).
      row_aspectRatio r = sum_list (map aspectRatio (items r))) \<and>
   (hasMore \<longrightarrow>
      (\<forall>r \<in> set (fst (tile its thr hasMore)).
         thr \<le> sum_list (map aspectRatio (items r))) \<and>
      concat (map items (fst (tile its thr hasMore))) @ snd (tile its thr hasMore) = its \<and>
      (snd (tile its thr hasMore) = [] \<or>
       sum_list (map aspectRatio (snd (tile its thr hasMore))) < thr)) \<and>
   (\<not> hasMore \<longrightarrow> snd (tile its thr hasMore) = [])"
proof -
  have b: "below thr []" by (simp add: below_def)
  from tile_rows_props[OF b, of its] show ?thesis
    by (auto simp: tile_def Let_def below_def make_row_def butlast_append
        dest: in_set_butlastD)
qed

theorem tile_threshold_witness:
  "tile ex_items 5 True = ([make_row [item ''a'' 2, item ''b'' 2, item ''c'' 2]], [item ''d'' 1]) \<and>
   tile ex_items 5 False =
     ([make_row [item ''a'' 2, item ''b'' 2, item ''c'' 2], make_row [item ''d'' 1]], []) \<and>
   5 \<le> sum_list (map aspectRatio [item ''a'' 2, item ''b'' 2, item ''c'' 2]) \<and>
   sum_list (map aspectRatio [item ''d'' 1]) < 5"
  using tile_threshold[of ex_items 5 True] tile_threshold[of ex_items 5 False]
  by (simp add: tile_def ex_items_def item_def make_row_def)

section \<open>Pagination\<close>

lemma get_fields [simp]:
  "state (get F) = state F" "config (get F) = config F" "lastScrollTop (get F) = lastScrollTop F"
  by (simp_all add: get_def)

lemma get_noop: "loading F \<or> currentRequestKey (state F) = Null \<Longrightarrow> get F = F"
  by (simp add: get_def)

lemma get_fetch:
  "\<not> loading F \<Longrightarrow> currentRequestKey (state F) \<noteq> Null \<Longrightarrow>
     get F = F\<lparr>loading := True, pending := pending F @ [currentRequestKey (state F)]\<rparr>"
  by (simp add: get_def)

lemma assign_index_fields [simp]:
  "sections (assign_index d s) = sections s"
  "shownSections (assign_index d s) = shownSections s"
  "height (assign_index d s) = height s"
  "containerHeight (assign_index d s) = containerHeight s"
  "width (assign_index d s) = width s"
  "currentRequestKey (assign_index d s) = currentRequestKey s"
  "currentRemainder (assign_index d s) = currentRemainder s"
  "currentRowRemainder (assign_index d s) = currentRowRemainder s"
  "options (assign_index d s) = options s"
  "activeSection (assign_index d s) = activeSection s"
  "lastSection (assign_index d s) = lastSection s"
  "clean (assign_index d s) = clean s"
  by (simp_all add: assign_index_def)

lemma fold_assign_index_fields [simp]:
  "sections (fold assign_index ds s) = sections s"
  "shownSections (fold assign_index ds s) = shownSections s"
  "height (fold assign_index ds s) = height s"
  "containerHeight (fold assign_index ds s) = containerHeight s"
  "width (fold assign_index ds s) = width s"
  "currentRequestKey (fold assign_index ds s) = currentRequestKey s"
  "currentRemainder (fold assign_index ds s) = currentRemainder s"
  "currentRowRemainder (fold assign_index ds s) = currentRowRemainder s"
  "options (fold assign_index ds s) = options s"
  "activeSection (fold assign_index ds s) = activeSection s"
  "lastSection (fold assign_index ds s) = lastSection s"
  "clean (fold assign_index ds s) = clean s"
  by (induction ds arbitrary: s; simp)+

lemma Flashlight_tile_fields [simp]:
  "sections (fst (Flashlight_tile E s its u)) = sections s"
  "shownSections (fst (Flashlight_tile E s its u)) = shownSections s"
  "height (fst (Flashlight_tile E s its u)) = height s"
  "containerHeight (fst (Flashlight_tile E s its u)) = containerHeight s"
  "width (fst (Flashlight_tile E s its u)) = width s"
  "currentRequestKey (fst (Flashlight_tile E s its u)) = currentRequestKey s"
  "currentRowRemainder (fst (Flashlight_tile E s its u)) = currentRowRemainder s"
  "options (fst (Flashlight_tile E s its u)) = options s"
  "activeSection (fst (Flashlight_tile E s its u)) = activeSection s"
  "lastSection (fst (Flashlight_tile E s its u)) = lastSection s"
  "clean (fst (Flashlight_tile E s its u)) = clean s"
  by (simp_all add: Flashlight_tile_def Let_def)

lemma get_then_sections_fields [simp]:
  "sections (state (fst (get_then_sections E F resp))) = sections (state F)"
  "shownSections (state (fst (get_then_sections E F resp))) = shownSections (state F)"
  "containerHeight (state (fst (get_then_sections E F resp))) = containerHeight (state F)"
  "activeSection (state (fst (get_then_sections E F resp))) = activeSection (state F)"
  "lastSection (state (fst (get_then_sections E F resp))) = lastSection (state F)"
  "height (state (fst (get_then_sections E F resp))) = height (state F)"
  by (simp_all add: get_then_sections_def Let_def)

lemma set_call_fields [simp]:
  "index (set_call MG s t w m) = index s" "attached (set_call MG s t w m) = attached s"
  by (simp_all add: set_call_def SectionElement_set_def set_top_def set_width_def Let_def)

lemma new_section_fields [simp]:
  "index (new_section E s rws) = int (length (sections s))"
  "attached (new_section E s rws) = False"
  by (simp_all add: new_section_def new_SectionElement_def)

text \<open>
  A section has no \<open>target\<close>: the body of \<open>forEach\<close> throws at the first section, which
  it has pushed, and the loop ends there. A loop over no section returns.
\<close>

lemma add_section_throws:
  "add_section E rws s = TypeError (s\<lparr>sections := sections s @ [new_section E s rws]\<rparr>)"
  by (simp add: add_section_def target_def Let_def)

lemma for_each_add_section:
  "for_each (add_section E) secs s =
     (case secs of
        [] \<Rightarrow> Ok s
      | rws # rest \<Rightarrow> TypeError (s\<lparr>sections := sections s @ [new_section E s rws]\<rparr>))"
  by (cases secs) (simp_all add: add_section_throws)

text \<open>
  So a pass that has a section to append never reaches line 236: the flag stays as it
  was, set, no \<open>get()\<close> follows, and the height is not updated.
\<close>

lemma get_then_throws:
  assumes "snd (get_then_sections E F resp) \<noteq> []"
  shows "\<exists>G. get_then E F resp = TypeError G \<and> loading G = loading F \<and>
             pending G = pending F \<and> height (state G) = height (state F) \<and>
             length (sections (state G)) = length (sections (state F)) + 1"
proof -
  obtain rws rest where s: "snd (get_then_sections E F resp) = rws # rest"
    using assms by (cases "snd (get_then_sections E F resp)") auto
  let ?F1 = "fst (get_then_sections E F resp)"
  have f: "loading ?F1 = loading F \<and> pending ?F1 = pending F"
    using assms by (auto simp: get_then_sections_def Let_def split: if_splits)
  have "get_then E F resp =
          TypeError (?F1\<lparr>state := (state ?F1)\<lparr>sections := sections (state ?F1)
                                                   @ [new_section E (state ?F1) rws]\<rparr>\<rparr>)"
    by (simp add: get_then_def get_then_appended_def Let_def for_each_add_section s)
  with f show ?thesis by simp
qed


text \<open>\<open>get()\<close> does nothing exactly when a fetch is under way or the key is \<open>null\<close>.\<close>

lemma get_noop_iff: "get F = F \<longleftrightarrow> loading F \<or> currentRequestKey (state F) = Null"
proof
  assume "get F = F"
  then have "loading (get F) = loading F" by simp
  then show "loading F \<or> currentRequestKey (state F) = Null"
    by (auto simp: get_def split: if_splits)
qed (simp add: get_noop)

lemma ex_started_reached: "run ex_env [Attach 116 50] (constructor ex_config) = Some ex_started"
  by code_simp

text \<open>
  C4. The claim counts a cursor as exhausted when the last response carried no key. The
  guard of \<open>get()\<close> tests \<open>=== null\<close>, and a response without \<open>nextRequestKey\<close> leaves
  \<open>undefined\<close>, which every other test of the file (\<open>Boolean(...)\<close>, \<open>&&\<close>) takes for "no
  more". On the controller just started, after a first response without items and
  without a key: the key is exhausted and nothing is loading, yet \<open>get()\<close> sets the flag
  and calls the pager with \<open>undefined\<close>; the response's own callback already does so, at
  line 245.
\<close>

theorem get_with_absent_key:
  "exhausted (currentRequestKey (state ex_exhausted)) \<and>
   loading ex_exhausted = False \<and>
   pending ex_exhausted = [] \<and>
   get ex_exhausted = ex_exhausted\<lparr>loading := True, pending := [Undefined]\<rparr> \<and>
   resolve ex_env ex_started ([], Undefined) =
     Ok (ex_exhausted\<lparr>loading := True, pending := [Undefined]\<rparr>) \<and>
   pending (after (resolve ex_env ex_started ([], Undefined))) = [Undefined]"
  by code_simp

section \<open>Item ordinals\<close>

lemma fold_assign_next: "nextItemIndex (fold assign_index ds s) = nextItemIndex s + length ds"
  by (induction ds arbitrary: s) (simp_all add: assign_index_def)

text \<open>
  Every pass of the method \<open>tile\<close> gives the items of the rows it emits the next
  ordinals, whether they hold one already or not.
\<close>

lemma tile_advances:
  "nextItemIndex (fst (Flashlight_tile E s its u)) = nextItemIndex s + length (emitted E s its)"
  by (simp add: Flashlight_tile_def Let_def emitted_def fold_assign_next)

lemma ex_withheld_reached:
  "run ex_env2 [Attach 116 50, Resolve [item ''a'' 5, item ''c'' 1] (Key 2)] (constructor ex_config)
     = Some ex_withheld"
  by code_simp

text \<open>
  C5. The claim has an ordinal, once assigned, never revised, across re-tiles too. The
  rebuild tiles the held items again with the method \<open>tile\<close>, which numbers every item
  it emits from \<open>nextItemIndex\<close> on; the rebuild does not start the count again, as
  \<open>reset\<close> does. In the controller with two rows per section, after a first page of the
  items \<open>a\<close> and \<open>c\<close> (the state the listed events lead to), \<open>a\<close> holds ordinal 0; the
  rebuild returns, and \<open>a\<close> holds ordinal 1.
\<close>

theorem rebuild_revises_ordinal:
  "run ex_env2 [Attach 116 50, Resolve [item ''a'' 5, item ''c'' 1] (Key 2)]
     (constructor ex_config) = Some ex_withheld \<and>
   map_of (itemIndexMap (state ex_withheld)) ''a'' = Some 0 \<and>
   nextItemIndex (state ex_withheld) = 1 \<and>
   rebuild ex_env2 ex_withheld = Ok (after (rebuild ex_env2 ex_withheld)) \<and>
   map_of (itemIndexMap (state (after (rebuild ex_env2 ex_withheld)))) ''a'' = Some 1 \<and>
   nextItemIndex (state (after (rebuild ex_env2 ex_withheld))) = 2 \<and>
   nextItemIndex (state (after (reset ex_withheld 116 50))) = 0 \<and>
   itemIndexMap (state (after (reset ex_withheld 116 50))) = []"
  by code_simp

section \<open>Rebuild\<close>

text \<open>
  What a rebuild that returns keeps, for a tiling function that loses no item: the items
  of the sections and of the row remainder, in order. The item remainder is not among
  them.
\<close>

lemma chunks_take:
  "concat (map (\<lambda>i. take n (drop (i * n) xs)) [0..<k]) = take (k * n) xs"
proof (induction k)
  case 0
  then show ?case by simp
next
  case (Suc k)
  have "take (k * n) xs @ take n (drop (k * n) xs) = take (k * n + n) xs"
    by (simp add: take_add)
  with Suc show ?case by (simp add: add.commute)
qed

lemma chunks_concat:
  assumes "0 < n"
  shows "concat (chunks n xs) = xs"
proof -
  define m where "m = length xs + n - 1"
  define q where "q = m div n * n"
  define r where "r = m mod n"
  have a: "q + r = m" by (simp add: q_def r_def)
  have b: "r < n" using assms by (simp add: r_def)
  have c: "m + 1 = length xs + n" using assms by (simp add: m_def)
  from a b c have "length xs \<le> q" by linarith
  then show ?thesis by (simp add: chunks_def chunks_take q_def m_def)
qed

lemma getItems_set_call:
  "getItems (set_call MG s t w m) = getItems s"
proof -
  have "\<And>lt rs. concat (map (\<lambda>(m, row). map snd row) (fst (set_rows MG w lt rs))) =
                  concat (map (\<lambda>(m, row). map snd row) rs)"
    by (simp add: set_rows_data)
  then show ?thesis
    by (simp add: getItems_def set_call_def SectionElement_set_def set_top_def set_width_def
        Let_def)
qed

lemma getItems_new_section: "getItems (new_section E s rws) = concat (map items rws)"
proof -
  have "getItems (new_SectionElement i rws) = concat (map items rws)" for i
    by (simp add: getItems_def new_SectionElement_def comp_def)
  then show ?thesis by (simp add: new_section_def getItems_set_call)
qed

lemma add_section_rebuild_throws:
  "add_section_rebuild E rws s =
     TypeError (s\<lparr>sections := sections s @ [new_section E s rws]\<rparr>)"
  by (simp add: add_section_rebuild_def target_def Let_def)

lemma for_each_add_section_rebuild:
  "for_each (add_section_rebuild E) secs s =
     (case secs of
        [] \<Rightarrow> Ok s
      | rws # rest \<Rightarrow> TypeError (s\<lparr>sections := sections s @ [new_section E s rws]\<rparr>))"
  by (cases secs) (simp_all add: add_section_rebuild_throws)

lemma for_each_add_section_rebuild_Ok:
  "for_each (add_section_rebuild E) secs s = Ok s' \<Longrightarrow> secs = [] \<and> s' = s"
  by (cases secs) (simp_all add: add_section_rebuild_throws)

lemma Flashlight_tile_result:
  "currentRemainder (fst (Flashlight_tile E s its u)) =
     snd (tile_fn E its (rowAspectRatioThreshold (options s)) (Boolean E (currentRequestKey s)))"
  "snd (Flashlight_tile E s its False) =
     chunks (NUM_ROWS_PER_SECTION E)
       (fst (tile_fn E its (rowAspectRatioThreshold (options s)) (Boolean E (currentRequestKey s))))"
  by (simp_all add: Flashlight_tile_def Let_def)

lemma rebuild_held:
  assumes "rebuild E F = Ok G" and "0 < NUM_ROWS_PER_SECTION E"
    and "\<And>its thr h. concat (map items (fst (tile_fn E its thr h))) @ snd (tile_fn E its thr h) = its"
  shows "held_items (state G) = rebuilt_items (state F)"
proof -
  define t where "t = Flashlight_tile E (state F) (rebuilt_items (state F)) False"
  define rws where "rws = fst (tile_fn E (rebuilt_items (state F))
      (rowAspectRatioThreshold (options (state F))) (Boolean E (currentRequestKey (state F))))"
  define more where "more = Boolean E (currentRequestKey (state F))"
  have rem: "concat (map items rws) @ currentRemainder (fst t) = rebuilt_items (state F)"
    using assms(3) by (simp add: t_def rws_def Flashlight_tile_result)
  have secs: "concat (snd t) = rws"
    using assms(2) by (simp add: t_def rws_def Flashlight_tile_result chunks_concat)
  have more': "Boolean E (currentRequestKey (fst t)) = more" by (simp add: t_def more_def)
  from assms(1) have ne: "\<not> (more \<and> snd t = [])"
    by (auto simp: rebuild_def Let_def t_def[symmetric] more' split: if_splits)
  show ?thesis
  proof (cases "more \<and> length (last (snd t)) \<noteq> NUM_ROWS_PER_SECTION E")
    case True
    with ne have n: "snd t \<noteq> []" by simp
    then have bl: "concat (butlast (snd t)) @ last (snd t) = rws"
      using secs by (metis append_butlast_last_id concat.simps(1,2) concat_append append_Nil2)
    define s3 where "s3 = (fst t)\<lparr>currentRowRemainder := last (snd t), height := 0, sections := [],
                            shownSections := [], clean := []\<rparr>"
    from assms(1) True ne
    have "\<exists>s4. for_each (add_section_rebuild E) (butlast (snd t)) s3 = Ok s4 \<and> state G = s4"
      by (auto simp: rebuild_def Let_def t_def[symmetric] more' s3_def
          split: if_splits result.splits)
    then have e: "butlast (snd t) = []" and g: "state G = s3"
      by (auto dest: for_each_add_section_rebuild_Ok)
    from g have "held_items (state G) = concat (map items (last (snd t))) @ currentRemainder (fst t)"
      by (simp add: held_items_def s3_def)
    with bl e rem show ?thesis by simp
  next
    case False
    define s3 where "s3 = (fst t)\<lparr>currentRowRemainder := [], height := 0, sections := [],
                            shownSections := [], clean := []\<rparr>"
    from assms(1) False ne
    have "\<exists>s4. for_each (add_section_rebuild E) (snd t) s3 = Ok s4 \<and> state G = s4"
      by (auto simp: rebuild_def Let_def t_def[symmetric] more' s3_def
          split: if_splits result.splits)
    then have e: "snd t = []" and g: "state G = s3"
      by (auto dest: for_each_add_section_rebuild_Ok)
    from g have "held_items (state G) = currentRemainder (fst t)"
      by (simp add: held_items_def s3_def)
    with secs e rem show ?thesis by simp
  qed
qed

text \<open>
  C6. The claim has the rebuild keep every item the controller holds. The rebuild
  collects the items of the sections and of the row remainder, but not the item
  remainder, which the tiling then overwrites; \<open>get()\<close> does prepend it. In the
  controller that holds the item \<open>a\<close> in its row remainder and the item \<open>c\<close> in its
  remainder, the rebuild returns with \<open>a\<close> alone.
\<close>

theorem rebuild_drops_remainder:
  "held_items (state ex_withheld) = [item ''a'' 5, item ''c'' 1] \<and>
   rebuild ex_env2 ex_withheld =
     Ok (ex_withheld\<lparr>state := (state ex_withheld)\<lparr>currentRemainder := [], nextItemIndex := 2,
                                                     itemIndexMap := [(''a'', 1)]\<rparr>\<rparr>) \<and>
   held_items (state (after (rebuild ex_env2 ex_withheld))) = [item ''a'' 5]"
  by code_simp

section \<open>Single flight\<close>

lemma flight_step_refl [simp]: "flight_step F F"
  by (simp add: flight_step_def)

lemma flight_step_state [simp]:
  "flight_step F (G\<lparr>state := s\<rparr>) = flight_step F G"
  "flight_step (F\<lparr>state := s\<rparr>) G = flight_step F G"
  "flight_step F (G\<lparr>lastScrollTop := t\<rparr>) = flight_step F G"
  by (simp_all add: flight_step_def)

lemma flight_step_get: "flight_step F G \<Longrightarrow> flight_step F (get G)"
  by (auto simp: flight_step_def get_def)

lemma flight_step_single: "single_flight F \<Longrightarrow> flight_step F G \<Longrightarrow> single_flight G"
  by (auto simp: flight_step_def single_flight_def)

lemma flight_step_loading: "loading F \<Longrightarrow> flight_step F G \<Longrightarrow> loading G \<and> pending G = pending F"
  by (auto simp: flight_step_def)

lemma get_single: "single_flight F \<Longrightarrow> single_flight (get F)"
  by (rule flight_step_single[OF _ flight_step_get[OF flight_step_refl]])

lemma get_then_sections_flight: "flight_step F (fst (get_then_sections E F resp))"
  by (simp add: get_then_sections_def Let_def flight_step_get)

lemma rebuild_flight: "flight_step F (after (rebuild E F))"
  by (simp add: rebuild_def Let_def after_def flight_step_get split: result.splits)

lemma finalize_flight: "flight_step F G \<Longrightarrow> flight_step F (finalize E G)"
  by (simp add: finalize_def requestMore_def flight_step_get)

lemma observe_entries_flight:
  "observe_entries E F st down es = Some r \<Longrightarrow> flight_step F (after r)"
proof (induction es arbitrary: F)
  case Nil
  then show ?case by (auto simp: after_def)
next
  case (Cons e es)
  obtain i ratio where e: "e = (i, ratio)" by (cases e)
  show ?case
  proof (cases "elem_at (sections (state F)) i")
    case None
    with Cons.prems e show ?thesis by (auto simp: after_def)
  next
    case (Some sec)
    show ?thesis
    proof (cases "show_entry (state F) sec ratio")
      case (TypeError s1)
      with Cons.prems e Some show ?thesis by (auto simp: after_def)
    next
      case (Ok s1)
      show ?thesis
      proof (cases "has (shownSections s1) (index sec)")
        case True
        with Cons.prems e Some Ok show ?thesis
          by (auto simp: after_def finalize_flight split: option.splits result.splits if_splits)
      next
        case False
        with Cons.prems e Some Ok have "observe_entries E (F\<lparr>state := s1\<rparr>) st down es = Some r"
          by simp
        from Cons.IH[OF this] show ?thesis by simp
      qed
    qed
  qed
qed

lemma observe_flight: "observe E F st es = Some r \<Longrightarrow> flight_step F (after r)"
  by (auto simp: observe_def after_def split: option.splits result.splits if_splits
      dest!: observe_entries_flight)

lemma reset_flight: "flight_step F (after (reset F w h))"
  by (simp add: reset_def after_def flight_step_get)

lemma reposition_flight: "flight_step F (after (reposition E F w))"
  by (simp add: reposition_def Let_def after_def split: option.splits)

lemma step_flight:
  "step E ev F = Some r \<Longrightarrow> \<not> is_Resolve ev \<Longrightarrow>
     flight_step F (after r) \<or> (loading (after r) = loading F \<and> pending (after r) = tl (pending F))"
proof (cases ev)
  case (Observe st es)
  assume "step E ev F = Some r"
  with Observe show ?thesis by (simp add: observe_flight)
next
  case Rebuild
  assume "step E ev F = Some r"
  with Rebuild show ?thesis by (auto simp: rebuild_flight)
next
  case (Reposition w)
  assume "step E ev F = Some r"
  with Reposition show ?thesis by (auto simp: reposition_flight)
next
  case (Reset w h)
  assume "step E ev F = Some r"
  with Reset show ?thesis by (auto simp: reset_flight)
qed (auto simp: after_def attach_def updateOptions_def updateItems_def reject_def
       is_Resolve_def flight_step_def)

lemma resolve_single: "single_flight F \<Longrightarrow> single_flight (after (resolve E F resp))"
proof (cases "pending F")
  case Nil
  assume "single_flight F"
  with Nil show ?thesis by (simp add: resolve_def after_def)
next
  case (Cons k ks)
  assume sf: "single_flight F"
  with Cons have ks: "ks = []" and l: "loading F" by (auto simp: single_flight_def)
  let ?F0 = "F\<lparr>pending := ks\<rparr>"
  let ?G = "fst (get_then_sections E ?F0 resp)"
  have fs: "flight_step ?F0 ?G" by (rule get_then_sections_flight)
  have l0: "loading ?F0" using l by simp
  from flight_step_loading[OF l0 fs] ks have p: "pending ?G = []" and lg: "loading ?G" by simp_all
  have "single_flight (after (get_then_appended E ?F0 resp))"
    using p by (simp add: get_then_appended_def Let_def single_flight_def after_def
        split: result.splits)
  then have "single_flight (after (get_then E ?F0 resp))"
    by (cases "get_then_appended E ?F0 resp") (simp_all add: get_then_def after_def get_single)
  with Cons show ?thesis by (simp add: resolve_def)
qed

lemma step_single: "single_flight F \<Longrightarrow> step E ev F = Some r \<Longrightarrow> single_flight (after r)"
proof (cases "is_Resolve ev")
  case True
  assume "single_flight F" "step E ev F = Some r"
  with True show ?thesis
    by (cases ev) (auto simp: is_Resolve_def resolve_single)
next
  case False
  assume sf: "single_flight F" and st: "step E ev F = Some r"
  from step_flight[OF st False] show ?thesis
  proof
    assume "flight_step F (after r)"
    with sf show ?thesis by (rule flight_step_single)
  next
    assume "loading (after r) = loading F \<and> pending (after r) = tl (pending F)"
    with sf show ?thesis by (cases "pending F") (auto simp: single_flight_def)
  qed
qed

lemma run_single: "single_flight F \<Longrightarrow> run E evs F = Some G \<Longrightarrow> single_flight G"
proof (induction evs arbitrary: F)
  case Nil
  then show ?case by simp
next
  case (Cons ev evs)
  then show ?case by (auto split: option.splits dest: step_single)
qed

lemma constructor_single: "single_flight (constructor c)"
  by (simp add: constructor_def single_flight_def get_def)

text \<open>
  C1. While the flag is set \<open>get()\<close> does nothing, so it calls the pager no second time.
  After every sequence of operations on a new controller at most one pager call is
  pending, and while one is pending the flag is set and \<open>get()\<close> does nothing. No
  operation but the resolution of the pending call clears the flag.
\<close>

theorem single_flight_pagination:
  "(loading F \<longrightarrow> get F = F) \<and>
   (run E evs (constructor c) = Some G \<longrightarrow>
      length (pending G) \<le> 1 \<and> (pending G \<noteq> [] \<longrightarrow> loading G \<and> get G = G)) \<and>
   (loading F \<and> step E ev F = Some r \<and> \<not> is_Resolve ev \<longrightarrow> loading (after r))"
proof (intro conjI impI)
  assume "loading F" then show "get F = F" by (simp add: get_def)
next
  assume "run E evs (constructor c) = Some G"
  from run_single[OF constructor_single this] show "length (pending G) \<le> 1"
    by (simp add: single_flight_def)
next
  assume "run E evs (constructor c) = Some G" and "pending G \<noteq> []"
  with run_single[OF constructor_single] show "loading G" by (auto simp: single_flight_def)
next
  assume "run E evs (constructor c) = Some G" and "pending G \<noteq> []"
  with run_single[OF constructor_single] have "loading G" by (auto simp: single_flight_def)
  then show "get G = G" by (simp add: get_def)
next
  assume a: "loading F \<and> step E ev F = Some r \<and> \<not> is_Resolve ev"
  then have st: "step E ev F = Some r" and nr: "\<not> is_Resolve ev" and l: "loading F"
    by simp_all
  from step_flight[OF st nr] l show "loading (after r)"
    by (auto dest: flight_step_loading)
qed

theorem single_flight_pagination_witness:
  "loading ex_started \<and> get ex_started = ex_started \<and>
   run ex_env [Attach 116 50] (constructor ex_config) = Some ex_started \<and>
   length (pending ex_started) \<le> 1 \<and> pending ex_started \<noteq> [] \<and>
   step ex_env Rebuild ex_started = Some (rebuild ex_env ex_started) \<and>
   \<not> is_Resolve (Rebuild :: nat event) \<and>
   loading (after (rebuild ex_env ex_started))"
proof -
  have h1: "loading ex_started" by code_simp
  have h2: "run ex_env [Attach 116 50] (constructor ex_config) = Some ex_started"
    by (rule ex_started_reached)
  have h3: "pending ex_started \<noteq> []" by code_simp
  have h4: "step ex_env Rebuild ex_started = Some (rebuild ex_env ex_started)" by simp
  have h5: "\<not> is_Resolve (Rebuild :: nat event)" by (simp add: is_Resolve_def)
  note t = single_flight_pagination[where F = ex_started and E = ex_env
      and evs = "[Attach 116 50]" and c = ex_config and G = ex_started and ev = Rebuild
      and r = "rebuild ex_env ex_started"]
  from t h1 h2 h3 h4 h5 show ?thesis by blast
qed

section \<open>Visibility\<close>

lemma elem_at_Some: "elem_at xs i = Some x \<longleftrightarrow> 0 \<le> i \<and> i < int (length xs) \<and> x = xs ! nat i"
  by (auto simp: elem_at_def)

lemma never_mounted_section:
  assumes "never_mounted s" "elem_at (sections s) i = Some sec"
  shows "index sec = i \<and> \<not> attached sec"
proof -
  from assms(2) have i: "0 \<le> i" "nat i < length (sections s)" "sec = sections s ! nat i"
    by (simp_all add: elem_at_Some nat_less_iff)
  from assms(1) have m: "map index (sections s) = map int [0 ..< length (sections s)]"
    and a: "list_all (\<lambda>section. \<not> attached section) (sections s)"
    by (simp_all add: never_mounted_def)
  from i(2) have "index (sections s ! nat i) = map index (sections s) ! nat i" by simp
  also have "\<dots> = int (nat i)" unfolding m using i(2) by simp
  finally have "index sec = i" using i by simp
  moreover from a i(2) have "\<not> attached (sections s ! nat i)" by (simp add: list_all_length)
  ultimately show ?thesis using i(3) by simp
qed

text \<open>On a section that is not attached \<open>showSection\<close> throws, and changes nothing.\<close>

lemma showSection_throws:
  assumes "elem_at (sections s) i = Some sec" "\<not> attached sec"
  shows "showSection s i = TypeError s"
  using assms by (simp add: showSection_def isShown_def show_section_def)

text \<open>
  A batch on a state where nothing is mounted: it throws at its first entry that
  intersects or names no section, and returns when there is none. In both cases the
  controller is as it was.
\<close>

lemma observe_entries_never_mounted:
  assumes "never_mounted (state F)"
  shows "observe_entries E F st down es =
           Some (if list_all (\<lambda>(i, ratio). elem_at (sections (state F)) i \<noteq> None \<and> ratio = 0) es
                 then Ok F else TypeError F)"
proof (induction es)
  case Nil
  then show ?case by simp
next
  case (Cons e es)
  obtain i ratio where e: "e = (i, ratio)" by (cases e)
  show ?case
  proof (cases "elem_at (sections (state F)) i")
    case None
    with e show ?thesis by simp
  next
    case (Some sec)
    from never_mounted_section[OF assms Some] have ix: "index sec = i" and na: "\<not> attached sec"
      by simp_all
    show ?thesis
    proof (cases "ratio = 0")
      case True
      from assms have "\<not> has (shownSections (state F)) (index sec)"
        by (simp add: never_mounted_def has_def)
      with True Some e Cons.IH show ?thesis by (simp add: show_entry_def)
    next
      case False
      from showSection_throws[OF Some na] have "showSection (state F) (index sec) = TypeError (state F)"
        by (simp add: ix)
      with False Some e show ?thesis by (simp add: show_entry_def)
    qed
  qed
qed

lemma observe_never_mounted:
  assumes "never_mounted (state F)"
  shows "\<exists>r. observe E F st es = Some r \<and> state (after r) = state F"
  unfolding observe_def observe_entries_never_mounted[OF assms]
  by (simp add: after_def)

subsection \<open>No operation mounts a section\<close>

lemma never_mounted_same:
  "never_mounted s \<Longrightarrow> sections s' = sections s \<Longrightarrow> shownSections s' = shownSections s \<Longrightarrow>
     activeSection s' = activeSection s \<Longrightarrow> lastSection s' = lastSection s \<Longrightarrow>
     height s' = height s \<Longrightarrow> never_mounted s'"
  by (simp add: never_mounted_def)

lemma never_mounted_push:
  "never_mounted s \<Longrightarrow> never_mounted (s\<lparr>sections := sections s @ [new_section E s rws]\<rparr>)"
  by (simp add: never_mounted_def)

lemma never_mounted_empty: "never_mounted (getEmptyState c)"
  by (simp add: never_mounted_def getEmptyState_def)

lemma get_then_never_mounted:
  assumes "never_mounted (state F)"
  shows "never_mounted (state (after (get_then E F resp)))"
proof -
  let ?F1 = "fst (get_then_sections E F resp)"
  have n1: "never_mounted (state ?F1)" by (rule never_mounted_same[OF assms]) simp_all
  show ?thesis
  proof (cases "snd (get_then_sections E F resp)")
    case Nil
    have "never_mounted ((state ?F1)\<lparr>currentRequestKey := snd resp\<rparr>)"
      by (rule never_mounted_same[OF n1]) simp_all
    with Nil show ?thesis
      by (simp add: get_then_def get_then_appended_def Let_def after_def)
  next
    case (Cons rws rest)
    with never_mounted_push[OF n1, of E rws] show ?thesis
      by (simp add: get_then_def get_then_appended_def Let_def after_def add_section_throws)
  qed
qed

lemma resolve_never_mounted:
  "never_mounted (state F) \<Longrightarrow> never_mounted (state (after (resolve E F resp)))"
proof (cases "pending F")
  case Nil
  assume "never_mounted (state F)"
  with Nil show ?thesis by (simp add: resolve_def after_def)
next
  case (Cons k ks)
  assume "never_mounted (state F)"
  then have "never_mounted (state (F\<lparr>pending := ks\<rparr>))" by simp
  from get_then_never_mounted[OF this] Cons show ?thesis by (simp add: resolve_def)
qed

lemma rebuild_never_mounted:
  assumes "never_mounted (state F)"
  shows "never_mounted (state (after (rebuild E F)))"
proof -
  define t where "t = Flashlight_tile E (state F) (rebuilt_items (state F)) False"
  have n1: "never_mounted (fst t)"
    by (rule never_mounted_same[OF assms]) (simp_all add: t_def)
  have n3: "never_mounted ((fst t)\<lparr>currentRowRemainder := rr, height := 0, sections := [],
                                      shownSections := [], clean := []\<rparr>)" for rr
    using n1 by (simp add: never_mounted_def)
  have n4: "never_mounted (case secs of [] \<Rightarrow> s | rws # rest \<Rightarrow>
                              s\<lparr>sections := sections s @ [new_section E s rws]\<rparr>)"
    if "never_mounted s" for secs and s :: "'a State"
    using that by (cases secs) (simp_all add: never_mounted_push)
  have a: "state (after (case for_each (add_section_rebuild E) secs s of
                           TypeError s' \<Rightarrow> TypeError (H\<lparr>state := s'\<rparr>)
                         | Ok s' \<Rightarrow> Ok (H\<lparr>state := s'\<rparr>))) =
           (case secs of [] \<Rightarrow> s | rws # rest \<Rightarrow>
              s\<lparr>sections := sections s @ [new_section E s rws]\<rparr>)"
    for secs s and H :: "'a Flashlight"
    by (cases secs) (simp_all add: add_section_rebuild_throws after_def)
  show ?thesis
    unfolding rebuild_def Let_def t_def[symmetric]
    by (simp add: a n1 n3 n4 after_def[of "TypeError _"])
qed

lemma reposition_sections_fields:
  "length (reposition_sections MG w m h secs) = length secs \<and>
   map index (reposition_sections MG w m h secs) = map index secs \<and>
   map attached (reposition_sections MG w m h secs) = map attached secs"
  by (induction MG w m h secs rule: reposition_sections.induct) simp_all

lemma reposition_never_mounted:
  assumes "never_mounted (state F)"
  shows "never_mounted (state (after (reposition E F w)))"
proof -
  let ?secs = "reposition_sections (MARGIN E) w (margin (options (state F))) 0 (sections (state F))"
  have "list_all (\<lambda>section. \<not> attached section) ?secs =
          list_all (\<lambda>a. \<not> a) (map attached ?secs)"
    by (simp add: list_all_iff)
  also have "\<dots> = list_all (\<lambda>section. \<not> attached section) (sections (state F))"
    by (simp add: reposition_sections_fields list_all_iff)
  finally have "never_mounted ((state F)\<lparr>width := Some w, sections := ?secs\<rparr>)"
    using assms by (simp add: never_mounted_def reposition_sections_fields)
  with assms show ?thesis
    by (simp add: reposition_def Let_def after_def target_def split: option.splits)
qed

lemma step_never_mounted:
  assumes "never_mounted (state F)" "step E ev F = Some r"
  shows "never_mounted (state (after r))"
proof (cases ev)
  case (Attach w h)
  have "never_mounted (state (attach F w h))"
    by (rule never_mounted_same[OF assms(1)]) (simp_all add: attach_def)
  with Attach assms(2) show ?thesis by (auto simp: after_def)
next
  case (Reset w h)
  have "never_mounted (state (after (reset F w h)))"
    by (rule never_mounted_same[OF never_mounted_empty[of "config F"]])
      (simp_all add: reset_def after_def)
  with Reset assms(2) show ?thesis by auto
next
  case (UpdateOptions p)
  have "never_mounted (state (fst (updateOptions F p)))"
    by (rule never_mounted_same[OF assms(1)]) (simp_all add: updateOptions_def)
  with UpdateOptions assms(2) show ?thesis by (auto simp: after_def)
next
  case Rebuild
  with assms(2) rebuild_never_mounted[OF assms(1)] show ?thesis by auto
next
  case UpdateItems
  have "never_mounted (state (updateItems F))"
    by (rule never_mounted_same[OF assms(1)]) (simp_all add: updateItems_def)
  with UpdateItems assms(2) show ?thesis by (auto simp: after_def)
next
  case (Resolve its k)
  with assms(2) resolve_never_mounted[OF assms(1)] show ?thesis by auto
next
  case Reject
  with assms show ?thesis by (auto simp: after_def reject_def)
next
  case (Observe st es)
  from observe_never_mounted[OF assms(1), of E st es] Observe assms show ?thesis by auto
next
  case (Reposition w)
  with assms(2) reposition_never_mounted[OF assms(1)] show ?thesis by auto
qed

lemma run_never_mounted:
  "never_mounted (state F) \<Longrightarrow> run E evs F = Some G \<Longrightarrow> never_mounted (state G)"
proof (induction evs arbitrary: F)
  case Nil
  then show ?case by simp
next
  case (Cons ev evs)
  then show ?case by (auto split: option.splits dest: step_never_mounted)
qed

text \<open>
  After every sequence of operations on a new controller no section is attached and the
  shown set is empty, while the window is the interval from 0 to 0; and every batch ends,
  leaving the state as it found it.
\<close>

lemma nothing_mounted:
  assumes "run E evs (constructor c) = Some G"
  shows "never_mounted (state G)"
    and "\<exists>r. observe E G scrollTop entries = Some r \<and> state (after r) = state G"
proof -
  have "never_mounted (state (constructor c))"
    by (rule never_mounted_same[OF never_mounted_empty[of c]]) (simp_all add: constructor_def)
  from run_never_mounted[OF this assms] show "never_mounted (state G)" .
  then show "\<exists>r. observe E G scrollTop entries = Some r \<and> state (after r) = state G"
    by (rule observe_never_mounted)
qed



end
